theory Spec2Isabelle
  imports Main "HOL-Library.Sublist"
begin

section \<open>Text and the character database\<close>

text \<open>
  Python strings are sequences of Unicode code points; a code point is a natural number
  and a string a list of them. The classification of code points that the \<open>re\<close> module
  and the \<open>str\<close> methods consult (decimal digit, whitespace, word character, case
  equivalence, upper and lower case) lives in Python's Unicode tables, outside the
  repository; it is a parameter of the model. \<open>ascii_db\<close> is the instance that agrees
  with Python on every code point below 128.
\<close>

type_synonym cp = nat
type_synonym ustr = "cp list"

definition u :: "string \<Rightarrow> ustr" where
  "u s = map of_char s"

record ucd =
  is_digit :: "cp \<Rightarrow> bool"
  is_space :: "cp \<Rightarrow> bool"
  is_word :: "cp \<Rightarrow> bool"
  fold_case :: "cp \<Rightarrow> cp"
  str_upper :: "ustr \<Rightarrow> ustr"
  str_lower :: "ustr \<Rightarrow> ustr"

definition ascii_digit :: "cp \<Rightarrow> bool" where
  "ascii_digit c = (48 \<le> c \<and> c \<le> 57)"

definition ascii_space :: "cp \<Rightarrow> bool" where
  "ascii_space c = ((9 \<le> c \<and> c \<le> 13) \<or> (28 \<le> c \<and> c \<le> 32))"

definition ascii_word :: "cp \<Rightarrow> bool" where
  "ascii_word c = ((48 \<le> c \<and> c \<le> 57) \<or> (65 \<le> c \<and> c \<le> 90) \<or> c = 95 \<or> (97 \<le> c \<and> c \<le> 122))"

definition ascii_lower :: "cp \<Rightarrow> cp" where
  "ascii_lower c = (if 65 \<le> c \<and> c \<le> 90 then c + 32 else c)"

definition ascii_upper :: "cp \<Rightarrow> cp" where
  "ascii_upper c = (if 97 \<le> c \<and> c \<le> 122 then c - 32 else c)"

definition ascii_db :: ucd where
  "ascii_db = \<lparr> is_digit = ascii_digit, is_space = ascii_space, is_word = ascii_word,
      fold_case = ascii_lower, str_upper = map ascii_upper, str_lower = map ascii_lower \<rparr>"

section \<open>Regular expressions as Python's \<open>re\<close> matches them\<close>

text \<open>
  Every pattern of the registry is used with \<open>re.IGNORECASE\<close>, so the matcher is the
  case-insensitive one: a literal matches a code point of the same case class, a range
  matches a code point case-equivalent to one of its members.
\<close>

datatype cls =
    Lit cp
  | Range cp cp
  | Digit
  | Space
  | AnyChar
  | OneOf "cls list"
  | NoneOf "cls list"

fun cls_match :: "ucd \<Rightarrow> cls \<Rightarrow> cp \<Rightarrow> bool" where
  "cls_match db (Lit c) x = (fold_case db x = fold_case db c)"
| "cls_match db (Range a b) x = list_ex (\<lambda>c. fold_case db x = fold_case db c) [a..<Suc b]"
| "cls_match db Digit x = is_digit db x"
| "cls_match db Space x = is_space db x"
| "cls_match db AnyChar x = (x \<noteq> 10)"
| "cls_match db (OneOf ks) x = list_ex (\<lambda>k. cls_match db k x) ks"
| "cls_match db (NoneOf ks) x = (\<not> list_ex (\<lambda>k. cls_match db k x) ks)"

text \<open>
  \<open>Many k m n g\<close> is the class \<open>k\<close> repeated \<open>{m,n}\<close> (\<open>n = None\<close>: unbounded), greedy
  when \<open>g\<close> and lazy otherwise; \<open>Bnd\<close> is \<open>\b\<close>; \<open>Opt\<close> is the greedy \<open>?\<close>.
\<close>

datatype re =
    Eps
  | Chr cls
  | Bnd
  | Seq re re
  | Alt re re
  | Opt re
  | Many cls nat "nat option" bool

text \<open>
  A position in the subject is the code point before it (if any) and the rest of the
  subject from it on.
\<close>

type_synonym pos = "cp option \<times> ustr"

definition word_at :: "ucd \<Rightarrow> cp option \<Rightarrow> bool" where
  "word_at db c = (case c of None \<Rightarrow> False | Some x \<Rightarrow> is_word db x)"

definition next_cp :: "ustr \<Rightarrow> cp option" where
  "next_cp s = (case s of [] \<Rightarrow> None | c # _ \<Rightarrow> Some c)"

definition boundary :: "ucd \<Rightarrow> pos \<Rightarrow> bool" where
  "boundary db st = (word_at db (fst st) \<noteq> word_at db (next_cp (snd st)))"

fun takes :: "ucd \<Rightarrow> cls \<Rightarrow> nat option \<Rightarrow> pos \<Rightarrow> pos list" where
  "takes db k mx (p, []) = [(p, [])]"
| "takes db k mx (p, c # s) =
     (p, c # s) # (if mx \<noteq> Some 0 \<and> cls_match db k c
                   then takes db k (map_option (\<lambda>n. n - 1) mx) (Some c, s) else [])"

text \<open>
  \<open>ends db r st\<close> lists the positions at which a match of \<open>r\<close> starting at \<open>st\<close> can end,
  in the order in which the backtracking matcher tries them: the left alternative first,
  the longest repetition first when greedy. The head of the list is the match Python
  reports.
\<close>

fun ends :: "ucd \<Rightarrow> re \<Rightarrow> pos \<Rightarrow> pos list" where
  "ends db Eps st = [st]"
| "ends db (Chr k) st =
     (case snd st of [] \<Rightarrow> [] | c # s \<Rightarrow> if cls_match db k c then [(Some c, s)] else [])"
| "ends db Bnd st = (if boundary db st then [st] else [])"
| "ends db (Seq a b) st = concat (map (ends db b) (ends db a st))"
| "ends db (Alt a b) st = ends db a st @ ends db b st"
| "ends db (Opt a) st = ends db a st @ [st]"
| "ends db (Many k m mx g) st =
     (let xs = drop m (takes db k mx st) in if g then rev xs else xs)"

definition first_match :: "ucd \<Rightarrow> re \<Rightarrow> bool \<Rightarrow> pos \<Rightarrow> pos option" where
  "first_match db r must st =
     find (\<lambda>e. \<not> must \<or> length (snd e) < length (snd st)) (ends db r st)"

text \<open>\<open>re.search\<close>: the leftmost position with a match, as a truth value.\<close>

fun re_search :: "ucd \<Rightarrow> re \<Rightarrow> pos \<Rightarrow> bool" where
  "re_search db r (p, []) = (ends db r (p, []) \<noteq> [])"
| "re_search db r (p, c # s) = (ends db r (p, c # s) \<noteq> [] \<or> re_search db r (Some c, s))"

lemma takes_length: "e \<in> set (takes db k mx st) \<Longrightarrow> length (snd e) \<le> length (snd st)"
proof (induction db k mx st rule: takes.induct)
  case (1 db k mx p)
  then show ?case by simp
next
  case (2 db k mx p c s)
  then show ?case by (fastforce split: if_splits)
qed

lemma ends_length: "e \<in> set (ends db r st) \<Longrightarrow> length (snd e) \<le> length (snd st)"
proof (induction r arbitrary: st e)
  case (Chr k)
  then show ?case by (cases "snd st") (auto split: if_splits)
next
  case (Seq a b)
  from Seq.prems obtain m where m: "m \<in> set (ends db a st)" and e: "e \<in> set (ends db b m)"
    by auto
  from Seq.IH(1)[OF m] Seq.IH(2)[OF e] show ?case by simp
next
  case (Many k m mx g)
  then show ?case by (auto simp: Let_def dest: in_set_dropD takes_length split: if_splits)
qed (auto split: if_splits)

lemma first_match_length:
  assumes "first_match db r must st = Some e"
  shows "length (snd e) \<le> length (snd st)" and "must \<Longrightarrow> length (snd e) < length (snd st)"
proof -
  from assms have "e \<in> set (ends db r st)"
    unfolding first_match_def by (auto simp: find_Some_iff)
  then show "length (snd e) \<le> length (snd st)" by (rule ends_length)
  from assms show "must \<Longrightarrow> length (snd e) < length (snd st)"
    unfolding first_match_def by (auto simp: find_Some_iff)
qed

text \<open>
  \<open>re.sub\<close> with a constant replacement: scan from the left, replace each match, resume
  at its end. After an empty match the next match at the same position has to be
  non-empty (\<open>must\<close>), as in CPython's substitution loop.
\<close>

function re_sub_from :: "ucd \<Rightarrow> re \<Rightarrow> ustr \<Rightarrow> bool \<Rightarrow> pos \<Rightarrow> ustr" where
  "re_sub_from db r repl must (p, s) =
     (case first_match db r must (p, s) of
        Some e \<Rightarrow> repl @ re_sub_from db r repl (length (snd e) = length s) e
      | None \<Rightarrow> (case s of [] \<Rightarrow> []
                 | c # s' \<Rightarrow> c # re_sub_from db r repl False (Some c, s')))"
  by pat_completeness auto
termination
proof (relation "measure (\<lambda>(db, r, repl, must, st). 2 * length (snd st) + (if must then 0 else 1))",
    goal_cases)
  case 1
  show ?case by simp
next
  case (2 db r repl must p s c s')
  then show ?case by simp
next
  case (3 db r repl must p s e)
  from first_match_length[OF this] show ?case by (cases must) auto
qed

declare re_sub_from.simps [simp del]

definition search :: "ucd \<Rightarrow> re \<Rightarrow> ustr \<Rightarrow> bool" where
  "search db r s = re_search db r (None, s)"

definition sub :: "ucd \<Rightarrow> re \<Rightarrow> ustr \<Rightarrow> ustr \<Rightarrow> ustr" where
  "sub db r repl s = re_sub_from db r repl False (None, s)"

section \<open>The pattern registry\<close>

text \<open>Builders for the syntax trees of the registry's pattern strings.\<close>

definition lit :: "string \<Rightarrow> re" where
  "lit s = foldr (\<lambda>c r. Seq (Chr (Lit (of_char c))) r) s Eps"

definition seqs :: "re list \<Rightarrow> re" where
  "seqs rs = foldr Seq rs Eps"

fun alts :: "re list \<Rightarrow> re" where
  "alts [] = Eps"
| "alts [r] = r"
| "alts (r # rs) = Alt r (alts rs)"

definition ch :: "string \<Rightarrow> cls" where
  "ch s = OneOf (map (\<lambda>c. Lit (of_char c)) s)"

definition digits :: "nat \<Rightarrow> nat option \<Rightarrow> re" where
  "digits m n = Many Digit m n True"

definition star :: "cls \<Rightarrow> re" where
  "star k = Many k 0 None True"

definition plus :: "cls \<Rightarrow> re" where
  "plus k = Many k 1 None True"

definition maybe :: "cls \<Rightarrow> re" where
  "maybe k = Many k 0 (Some 1) True"

text \<open>\<open>[-\u2013\u2014\s]\<close>: hyphen, en dash, em dash or whitespace.\<close>

definition ssn_sep :: cls where
  "ssn_sep = OneOf [Lit 45, Lit 8211, Lit 8212, Space]"

text \<open>
  \<open>\d{3}[-\u2013\u2014\s]?\d{2}[-\u2013\u2014\s]?\d{4}\<close>, shared by both SSN patterns.
\<close>

definition ssn_digits :: re where
  "ssn_digits = seqs [digits 3 (Some 3), maybe ssn_sep, digits 2 (Some 2), maybe ssn_sep,
     digits 4 (Some 4)]"

definition ssn_re :: re where
  "ssn_re = seqs [Bnd, ssn_digits, Bnd]"

definition ssn_labeled_re :: re where
  "ssn_labeled_re = seqs [
     alts [seqs [lit ''social'', star Space, lit ''security'',
                 Opt (seqs [star Space,
                   alts [lit ''number'', seqs [lit ''no'', maybe (Lit 46)],
                         seqs [lit ''num'', maybe (Lit 46)], lit ''#'']])],
           lit ''ssn'',
           seqs [lit ''ss'', star Space, lit ''#''],
           seqs [lit ''ss'', star Space, lit ''no'', maybe (Lit 46)]],
     star (OneOf [Space, Lit 58, Lit 46, Lit 61, Lit 35]),
     ssn_digits]"

text \<open>\<open>[-\s]\<close>\<close>

definition dash_ws :: cls where
  "dash_ws = OneOf [Lit 45, Space]"

definition credit_card_re :: re where
  "credit_card_re = seqs [Bnd,
     alts [seqs [lit ''4'', digits 3 (Some 3)],
           seqs [lit ''5'', Chr (Range 49 53), digits 2 (Some 2)],
           seqs [lit ''3'', Chr (ch ''47''), digits 2 (Some 2)],
           seqs [lit ''6'', alts [lit ''011'', seqs [lit ''5'', digits 2 (Some 2)]]]],
     maybe dash_ws, digits 4 (Some 4), maybe dash_ws, digits 4 (Some 4),
     maybe dash_ws, digits 4 (Some 4), Bnd]"

definition credit_card_generic_re :: re where
  "credit_card_generic_re = seqs [Bnd,
     seqs [digits 4 (Some 4), Chr dash_ws],
     seqs [digits 4 (Some 4), Chr dash_ws],
     seqs [digits 4 (Some 4), Chr dash_ws],
     digits 4 (Some 4), Bnd]"

definition phi_mrn_re :: re where
  "phi_mrn_re = seqs [Bnd,
     alts [lit ''MRN'', lit ''Medical Record'', lit ''Patient ID''],
     star (OneOf [Space, Lit 58, Lit 35]), digits 5 None, Bnd]"

text \<open>
  \<open>DOB|D\.O\.B\.?|date\s+of\s+birth|birth\s*date|birth\s*day|b[\-\s]?day|born(?:\s+on)?\<close>,
  the label alternatives the three labelled date patterns share.
\<close>

definition dob_labels :: "re list" where
  "dob_labels = [lit ''DOB'', seqs [lit ''D.O.B'', maybe (Lit 46)],
     seqs [lit ''date'', plus Space, lit ''of'', plus Space, lit ''birth''],
     seqs [lit ''birth'', star Space, lit ''date''],
     seqs [lit ''birth'', star Space, lit ''day''],
     seqs [lit ''b'', maybe dash_ws, lit ''day''],
     seqs [lit ''born'', Opt (seqs [plus Space, lit ''on''])]]"

text \<open>\<open>[/\-\.]\<close> and \<open>[/\-]\<close>\<close>

definition date_sep3 :: cls where
  "date_sep3 = OneOf [Lit 47, Lit 45, Lit 46]"

definition date_sep2 :: cls where
  "date_sep2 = OneOf [Lit 47, Lit 45]"

definition phi_dob_re :: re where
  "phi_dob_re = seqs [Bnd,
     alts (dob_labels @ [seqs [lit ''fecha'', plus Space, lit ''de'', plus Space,
                               lit ''nacimiento'']]),
     star (OneOf [Space, Lit 58]),
     digits 1 (Some 2), Chr date_sep3, digits 1 (Some 2), Chr date_sep3,
     digits 2 (Some 4), Bnd]"

definition phi_dob_iso_re :: re where
  "phi_dob_iso_re = seqs [Bnd, alts dob_labels, star (OneOf [Space, Lit 58]),
     digits 4 (Some 4), Chr date_sep3, digits 1 (Some 2), Chr date_sep3,
     digits 1 (Some 2), Bnd]"

definition month_names :: "re list" where
  "month_names = [seqs [lit ''Jan'', Opt (lit ''uary'')], seqs [lit ''Feb'', Opt (lit ''ruary'')],
     seqs [lit ''Mar'', Opt (lit ''ch'')], seqs [lit ''Apr'', Opt (lit ''il'')],
     lit ''May'', seqs [lit ''Jun'', Opt (lit ''e'')], seqs [lit ''Jul'', Opt (lit ''y'')],
     seqs [lit ''Aug'', Opt (lit ''ust'')],
     seqs [lit ''Sep'', Opt (seqs [lit ''t'', Opt (lit ''ember'')])],
     seqs [lit ''Oct'', Opt (lit ''ober'')], seqs [lit ''Nov'', Opt (lit ''ember'')],
     seqs [lit ''Dec'', Opt (lit ''ember'')]]"

definition phi_dob_text_month_re :: re where
  "phi_dob_text_month_re = seqs [Bnd, alts dob_labels, star (OneOf [Space, Lit 58]),
     alts month_names, maybe (Lit 46), plus Space, digits 1 (Some 2), maybe (Lit 44),
     plus Space, digits 2 (Some 4)]"

text \<open>\<open>0?[1-9]|1[0-2]\<close>, \<open>0?[1-9]|[12]\d|3[01]\<close> and \<open>(?:19|20)\d{2}\<close>\<close>

definition month_num :: re where
  "month_num = alts [seqs [maybe (Lit 48), Chr (Range 49 57)], seqs [lit ''1'', Chr (Range 48 50)]]"

definition day_num :: re where
  "day_num = alts [seqs [maybe (Lit 48), Chr (Range 49 57)], seqs [Chr (ch ''12''), Chr Digit],
     seqs [lit ''3'', Chr (ch ''01'')]]"

definition year_num :: re where
  "year_num = seqs [alts [lit ''19'', lit ''20''], digits 2 (Some 2)]"

definition phi_dob_standalone_re :: re where
  "phi_dob_standalone_re =
     seqs [Bnd, month_num, Chr date_sep2, day_num, Chr date_sep2, year_num, Bnd]"

definition phi_dob_standalone_iso_re :: re where
  "phi_dob_standalone_iso_re =
     seqs [Bnd, year_num, Chr date_sep2, month_num, Chr date_sep2, day_num, Bnd]"

definition phi_diagnosis_re :: re where
  "phi_diagnosis_re = seqs [Bnd,
     seqs [lit ''ICD'', maybe dash_ws, alts [lit ''9'', lit ''10''], maybe dash_ws,
           Opt (alts [lit ''CM'', lit ''PCS'']), star (OneOf [Space, Lit 58, Lit 35]),
           Chr (Range 65 90), digits 2 (Some 2),
           Opt (seqs [lit ''.'', digits 1 (Some 4)])],
     Bnd]"

text \<open>\<open>[a-zA-Z0-9]\<close>, \<open>[a-zA-Z0-9_\-]\<close>, \<open>["\']\<close>, \<open>[^;\n]\<close>\<close>

definition alnum :: cls where
  "alnum = OneOf [Range 97 122, Range 65 90, Range 48 57]"

definition key_char :: cls where
  "key_char = OneOf [Range 97 122, Range 65 90, Range 48 57, Lit 95, Lit 45]"

definition quote :: cls where
  "quote = OneOf [Lit 34, Lit 39]"

definition field_char :: cls where
  "field_char = NoneOf [Lit 59, Lit 10]"

definition api_key_re :: re where
  "api_key_re = seqs [Bnd,
     alts [seqs [lit ''sk-'', Many alnum 20 None True],
           seqs [lit ''api'', maybe (OneOf [Lit 95, Lit 45]), lit ''key'',
                 plus (OneOf [Space, Lit 61, Lit 58]), maybe quote, Many key_char 16 None True]]]"

definition password_inline_re :: re where
  "password_inline_re = seqs [
     alts [lit ''password'', lit ''passwd'', lit ''pwd''],
     star Space, plus (OneOf [Lit 61, Lit 58]), star Space, maybe quote,
     Many (NoneOf [Space, Lit 34, Lit 39]) 8 None True]"

definition connection_string_re :: re where
  "connection_string_re = seqs [
     alts [lit ''Server'', lit ''Data Source'', lit ''Host'', lit ''Provider''],
     lit ''='', plus field_char, lit '';'',
     seqs [Many AnyChar 0 None False,
           alts [lit ''Password'', lit ''Pwd'', lit ''User ID''], lit ''='', plus field_char]]"

definition aws_key_re :: re where
  "aws_key_re = seqs [Bnd, alts [lit ''AKIA'', lit ''ASIA''],
     Many (OneOf [Range 65 90, Range 48 57]) 16 (Some 16) True, Bnd]"

definition private_key_re :: re where
  "private_key_re = seqs [lit ''-----BEGIN '',
     Opt (alts [lit ''RSA '', lit ''EC '', lit ''DSA '']), lit ''PRIVATE KEY-----'']"

definition bank_routing_re :: re where
  "bank_routing_re = seqs [Bnd, alts [lit ''routing'', lit ''ABA''],
     star (OneOf [Space, Lit 35, Lit 58]), digits 9 (Some 9), Bnd]"

definition bank_account_re :: re where
  "bank_account_re = seqs [Bnd, alts [lit ''account'', lit ''acct''],
     star (OneOf [Space, Lit 35, Lit 58]), digits 8 (Some 17), Bnd]"

text \<open>
  What Python makes of a pattern value when \<open>re.search\<close> or \<open>re.sub\<close> receives it: a
  string that compiles, a string that does not (\<open>re.error\<close>), or a value that is not a
  string (\<open>TypeError\<close>). The built-in patterns all compile; a custom pattern comes from
  the configuration and can be any of the three.
\<close>

datatype creg = Compiled re | BadPattern | NotAString

datatype error = ReError | TypeError | AttributeError | KeyError | OSError | Blocked ustr

record pattern =
  regex :: creg
  description :: ustr
  valve :: ustr
  severity :: ustr

definition mk_pattern :: "re \<Rightarrow> string \<Rightarrow> string \<Rightarrow> string \<Rightarrow> pattern" where
  "mk_pattern r d v sv = \<lparr> regex = Compiled r, description = u d, valve = u v, severity = u sv \<rparr>"

text \<open>\<open>self.patterns\<close>, in the insertion order of the dictionary literal.\<close>

definition patterns :: "(ustr \<times> pattern) list" where
  "patterns = [
     (u ''ssn'', mk_pattern ssn_re ''Social Security Number'' ''block_ssn'' ''critical''),
     (u ''ssn_labeled'',
        mk_pattern ssn_labeled_re ''Social Security Number (labeled)'' ''block_ssn'' ''critical''),
     (u ''credit_card'',
        mk_pattern credit_card_re ''Credit Card Number'' ''block_credit_cards'' ''critical''),
     (u ''credit_card_generic'',
        mk_pattern credit_card_generic_re ''Potential Credit Card Number'' ''block_credit_cards''
          ''high''),
     (u ''phi_mrn'', mk_pattern phi_mrn_re ''Medical Record Number'' ''block_phi'' ''critical''),
     (u ''phi_dob'', mk_pattern phi_dob_re ''Date of Birth (labeled)'' ''block_phi'' ''high''),
     (u ''phi_dob_iso'',
        mk_pattern phi_dob_iso_re ''Date of Birth - ISO format'' ''block_phi'' ''high''),
     (u ''phi_dob_text_month'',
        mk_pattern phi_dob_text_month_re ''Date of Birth - text month'' ''block_phi'' ''high''),
     (u ''phi_dob_standalone'',
        mk_pattern phi_dob_standalone_re ''Date Pattern (MM/DD/YYYY)'' ''block_standalone_dates''
          ''medium''),
     (u ''phi_dob_standalone_iso'',
        mk_pattern phi_dob_standalone_iso_re ''Date Pattern (YYYY-MM-DD)''
          ''block_standalone_dates'' ''medium''),
     (u ''phi_diagnosis'',
        mk_pattern phi_diagnosis_re ''ICD Diagnosis Code'' ''block_phi'' ''medium''),
     (u ''api_key'', mk_pattern api_key_re ''API Key'' ''block_credentials'' ''critical''),
     (u ''password_inline'',
        mk_pattern password_inline_re ''Inline Password'' ''block_credentials'' ''critical''),
     (u ''connection_string'',
        mk_pattern connection_string_re ''Database Connection String'' ''block_credentials''
          ''critical''),
     (u ''aws_key'', mk_pattern aws_key_re ''AWS Access Key'' ''block_credentials'' ''critical''),
     (u ''private_key'',
        mk_pattern private_key_re ''Private Key'' ''block_credentials'' ''critical''),
     (u ''bank_routing'',
        mk_pattern bank_routing_re ''Bank Routing Number'' ''block_bank_accounts'' ''critical''),
     (u ''bank_account'',
        mk_pattern bank_account_re ''Bank Account Number'' ''block_bank_accounts'' ''critical'')]"

section \<open>Configuration\<close>

text \<open>
  \<open>custom_patterns\<close> is a string holding JSON. The model keeps what \<open>json.loads\<close> makes
  of it: a decoding error, an object (its members in order, each value as \<open>creg\<close>), or
  a JSON value of another kind (a list, a number, a string, \<open>null\<close>).
\<close>

datatype custom_json = JsonError | JsonObject "(ustr \<times> creg) list" | JsonOther

record valves =
  enabled :: bool
  mode :: ustr
  block_ssn :: bool
  block_credit_cards :: bool
  block_phi :: bool
  block_credentials :: bool
  block_bank_accounts :: bool
  block_standalone_dates :: bool
  scan_file_uploads :: bool
  max_file_size_mb :: int
  log_detections :: bool
  custom_patterns :: custom_json

definition default_valves :: valves where
  "default_valves = \<lparr> enabled = True, mode = u ''block'', block_ssn = True,
     block_credit_cards = True, block_phi = True, block_credentials = True,
     block_bank_accounts = True, block_standalone_dates = True, scan_file_uploads = True,
     max_file_size_mb = 50, log_detections = True, custom_patterns = JsonObject [] \<rparr>"

text \<open>
  \<open>getattr(self.valves, valve_name, True)\<close> for the toggle names; a name that is no
  attribute of the valves gives the default \<open>True\<close>.
\<close>

definition getattr_valve :: "valves \<Rightarrow> ustr \<Rightarrow> bool" where
  "getattr_valve v n =
     (if n = u ''block_ssn'' then block_ssn v
      else if n = u ''block_credit_cards'' then block_credit_cards v
      else if n = u ''block_phi'' then block_phi v
      else if n = u ''block_credentials'' then block_credentials v
      else if n = u ''block_bank_accounts'' then block_bank_accounts v
      else if n = u ''block_standalone_dates'' then block_standalone_dates v
      else if n = u ''enabled'' then enabled v
      else if n = u ''scan_file_uploads'' then scan_file_uploads v
      else if n = u ''log_detections'' then log_detections v
      else True)"

text \<open>\<open>d[k] = v\<close> on a dictionary kept in insertion order.\<close>

fun dict_set :: "('k \<times> 'v) list \<Rightarrow> 'k \<Rightarrow> 'v \<Rightarrow> ('k \<times> 'v) list" where
  "dict_set [] k v = [(k, v)]"
| "dict_set ((k', v') # d) k v = (if k' = k then (k, v) # d else (k', v') # dict_set d k v)"

definition custom_pattern :: "ustr \<Rightarrow> creg \<Rightarrow> pattern" where
  "custom_pattern name rx = \<lparr> regex = rx, description = u ''Custom: '' @ name,
     valve = u ''enabled'', severity = u ''high'' \<rparr>"

definition get_active_patterns :: "valves \<Rightarrow> error + (ustr \<times> pattern) list" where
  "get_active_patterns v =
     (let active = filter (\<lambda>(name, p). getattr_valve v (valve p)) patterns
      in case custom_patterns v of
           JsonError \<Rightarrow> Inr active
         | JsonOther \<Rightarrow> Inl AttributeError
         | JsonObject custom \<Rightarrow>
             Inr (foldl (\<lambda>a (name, rx). dict_set a (u ''custom_'' @ name) (custom_pattern name rx))
                    active custom))"

section \<open>Scanning and redaction\<close>

type_synonym detection = "ustr \<times> ustr \<times> ustr"

text \<open>
  \<open>re.search(pattern, text, re.IGNORECASE)\<close> and \<open>re.sub(pattern, repl, text,
  flags=re.IGNORECASE)\<close>: the pattern is compiled first, then the subject is looked at.
  \<open>None\<close> as subject is Python's \<open>None\<close>.
\<close>

definition py_search :: "ucd \<Rightarrow> creg \<Rightarrow> ustr option \<Rightarrow> error + bool" where
  "py_search db rx t =
     (case rx of
        NotAString \<Rightarrow> Inl TypeError
      | BadPattern \<Rightarrow> Inl ReError
      | Compiled r \<Rightarrow> (case t of None \<Rightarrow> Inl TypeError | Some s \<Rightarrow> Inr (search db r s)))"

definition py_sub :: "ucd \<Rightarrow> creg \<Rightarrow> ustr \<Rightarrow> ustr option \<Rightarrow> error + ustr" where
  "py_sub db rx repl t =
     (case rx of
        NotAString \<Rightarrow> Inl TypeError
      | BadPattern \<Rightarrow> Inl ReError
      | Compiled r \<Rightarrow> (case t of None \<Rightarrow> Inl TypeError | Some s \<Rightarrow> Inr (sub db r repl s)))"

fun scan_loop :: "ucd \<Rightarrow> (ustr \<times> pattern) list \<Rightarrow> ustr option \<Rightarrow> error + detection list" where
  "scan_loop db [] t = Inr []"
| "scan_loop db ((name, p) # ps) t =
     (case py_search db (regex p) t of
        Inl e \<Rightarrow> Inl e
      | Inr hit \<Rightarrow>
          (case scan_loop db ps t of
             Inl e \<Rightarrow> Inl e
           | Inr ds \<Rightarrow> Inr (if hit then (name, description p, severity p) # ds else ds)))"

definition scan_text :: "ucd \<Rightarrow> valves \<Rightarrow> ustr option \<Rightarrow> error + detection list" where
  "scan_text db v t =
     (case get_active_patterns v of Inl e \<Rightarrow> Inl e | Inr active \<Rightarrow> scan_loop db active t)"

definition placeholder :: "ucd \<Rightarrow> ustr \<Rightarrow> ustr" where
  "placeholder db name = u ''[REDACTED-'' @ str_upper db name @ u '']''"

fun redact_loop :: "ucd \<Rightarrow> (ustr \<times> pattern) list \<Rightarrow> ustr \<Rightarrow> error + ustr" where
  "redact_loop db [] t = Inr t"
| "redact_loop db ((name, p) # ps) t =
     (case py_sub db (regex p) (placeholder db name) (Some t) of
        Inl e \<Rightarrow> Inl e
      | Inr t' \<Rightarrow> redact_loop db ps t')"

definition redact_text :: "ucd \<Rightarrow> valves \<Rightarrow> ustr \<Rightarrow> error + ustr" where
  "redact_text db v t =
     (case get_active_patterns v of Inl e \<Rightarrow> Inl e | Inr active \<Rightarrow> redact_loop db active t)"

section \<open>Requests and the file store\<close>

text \<open>
  The request body in the shape the host hands over: messages with a role and a content
  that is a string, a list of blocks, or something else (kept as what \<open>str()\<close> makes of
  it); a block is a dictionary of type \<open>text\<close> with an optional \<open>text\<close> string, or
  anything else, kept opaque. A message without \<open>content\<close> reads as the empty string,
  which the inbound pass replaces at once, so it is modelled as \<open>CStr []\<close>. The user
  record and the logger only feed log lines and are left out.
\<close>

datatype item = TextItem "ustr option" | OtherItem ustr

datatype content = CStr ustr | CList "item list" | COther ustr

record message =
  role :: "ustr option"
  content :: content

text \<open>A file reference; a missing \<open>type\<close> or \<open>id\<close> reads as the empty string.\<close>

record file_ref =
  f_type :: ustr
  f_id :: ustr
  f_name :: "ustr option"

datatype file_entry = Ref file_ref | NotADict ustr

record meta =
  meta_files :: "file_entry list option"

record body =
  messages :: "message list"
  files :: "file_entry list option"
  metadata :: "meta option"

text \<open>
  What the pass asks of its surroundings: the two directory listings of
  \<open>_resolve_file_path\<close>, the size of a file, the text a decoder (or a plain read) gets out
  of a file, and the order in which Python iterates the set built from a list of strings.
\<close>

datatype fmt = Xlsx | Xls | Csv | Pdf | Docx | Pptx | PlainText

record env =
  glob_top :: "ustr \<Rightarrow> ustr list"
  glob_deep :: "ustr \<Rightarrow> ustr list"
  getsize :: "ustr \<Rightarrow> error + int"
  decode :: "fmt \<Rightarrow> ustr \<Rightarrow> error + ustr"
  set_iter :: "ustr list \<Rightarrow> ustr list"

definition resolve_file_path :: "env \<Rightarrow> ustr \<Rightarrow> ustr \<Rightarrow> ustr option" where
  "resolve_file_path ev file_id file_name =
     (case glob_top ev file_id of
        c # _ \<Rightarrow> Some c
      | [] \<Rightarrow> (case glob_deep ev file_id of c # _ \<Rightarrow> Some c | [] \<Rightarrow> None))"

definition get_file_extension :: "ucd \<Rightarrow> ustr \<Rightarrow> ustr" where
  "get_file_extension db file_name =
     (if 46 \<in> set file_name then str_lower db (rev (takeWhile (\<lambda>c. c \<noteq> 46) (rev file_name)))
      else [])"

definition extractors :: "(ustr \<times> fmt) list" where
  "extractors = [(u ''xlsx'', Xlsx), (u ''xlsm'', Xlsx), (u ''xls'', Xls), (u ''csv'', Csv),
     (u ''tsv'', Csv), (u ''pdf'', Pdf), (u ''docx'', Docx), (u ''pptx'', Pptx)]"

definition text_extensions :: "ustr list" where
  "text_extensions = map u [''txt'', ''md'', ''json'', ''xml'', ''yaml'', ''yml'', ''log'',
     ''py'', ''js'', ''ts'', ''html'', ''css'', ''sql'', ''sh'', ''bat'',
     ''ini'', ''cfg'', ''conf'', ''env'', ''properties'']"

definition extract_text_from_file :: "ucd \<Rightarrow> env \<Rightarrow> ustr \<Rightarrow> ustr \<Rightarrow> error + ustr" where
  "extract_text_from_file db ev file_path file_name =
     (let ext = get_file_extension db file_name
      in case map_of extractors ext of
           Some f \<Rightarrow> decode ev f file_path
         | None \<Rightarrow> if ext \<in> set text_extensions then decode ev PlainText file_path else Inr [])"

section \<open>File scanning\<close>

text \<open>
  One turn of the loop of \<open>_scan_files\<close>: the flagged entry, if any, and the paths handed
  to \<open>_extract_text_from_file\<close>. Every exception inside the \<open>try\<close> ends the turn without
  a result.
\<close>

definition scan_file ::
  "ucd \<Rightarrow> env \<Rightarrow> valves \<Rightarrow> file_entry \<Rightarrow> (ustr \<times> detection list) option \<times> ustr list" where
  "scan_file db ev v fe =
     (case fe of
        NotADict _ \<Rightarrow> (None, [])
      | Ref f \<Rightarrow>
          if f_type f \<noteq> u ''file'' \<and> f_type f \<noteq> [] then (None, [])
          else if f_id f = [] then (None, [])
          else
            let file_name = (case f_name f of None \<Rightarrow> u ''unknown'' | Some n \<Rightarrow> n)
            in case resolve_file_path ev (f_id f) file_name of
                 None \<Rightarrow> (None, [])
               | Some file_path \<Rightarrow>
                   if file_path = [] then (None, [])
                   else case getsize ev file_path of
                     Inl e \<Rightarrow> (None, [])
                   | Inr file_size \<Rightarrow>
                       if file_size > max_file_size_mb v * 1024 * 1024 then (None, [])
                       else case extract_text_from_file db ev file_path file_name of
                         Inl e \<Rightarrow> (None, [file_path])
                       | Inr txt \<Rightarrow>
                           if txt = [] then (None, [file_path])
                           else case scan_text db v (Some txt) of
                             Inl e \<Rightarrow> (None, [file_path])
                           | Inr detections \<Rightarrow>
                               if detections \<noteq> [] then (Some (file_name, detections), [file_path])
                               else (None, [file_path]))"

definition scan_files ::
  "ucd \<Rightarrow> env \<Rightarrow> valves \<Rightarrow> body \<Rightarrow> (ustr \<times> detection list) list \<times> ustr list" where
  "scan_files db ev v b =
     (case files b of
        None \<Rightarrow> ([], [])
      | Some fs \<Rightarrow>
          let rs = map (scan_file db ev v) fs
          in (List.map_filter fst rs, concat (map snd rs)))"

section \<open>The inbound pass\<close>

definition blank :: "ucd \<Rightarrow> ustr \<Rightarrow> bool" where
  "blank db s = list_all (is_space db) s"

definition filler :: ustr where
  "filler = u ''Please analyze the attached file.''"

fun sanitize_item :: "ucd \<Rightarrow> item \<Rightarrow> item" where
  "sanitize_item db (TextItem t) =
     (if blank db (case t of None \<Rightarrow> [] | Some x \<Rightarrow> x) then TextItem (Some filler) else TextItem t)"
| "sanitize_item db (OtherItem x) = OtherItem x"

definition sanitize_message :: "ucd \<Rightarrow> message \<Rightarrow> message" where
  "sanitize_message db m =
     (case content m of
        CList items \<Rightarrow> m\<lparr>content := CList (map (sanitize_item db) items)\<rparr>
      | CStr s \<Rightarrow> if blank db s then m\<lparr>content := CStr filler\<rparr> else m
      | COther _ \<Rightarrow> m)"

fun join :: "ustr \<Rightarrow> ustr list \<Rightarrow> ustr" where
  "join sep [] = []"
| "join sep [x] = x"
| "join sep (x # xs) = x @ sep @ join sep xs"

fun item_text :: "item \<Rightarrow> ustr list" where
  "item_text (TextItem t) = [case t of None \<Rightarrow> [] | Some x \<Rightarrow> x]"
| "item_text (OtherItem _) = []"

definition text_to_scan :: "message \<Rightarrow> ustr" where
  "text_to_scan m =
     (case content m of
        CList items \<Rightarrow> join (u '' '') (concat (map item_text items))
      | CStr s \<Rightarrow> s
      | COther s \<Rightarrow> s)"

fun scan_messages :: "ucd \<Rightarrow> valves \<Rightarrow> message list \<Rightarrow> error + detection list" where
  "scan_messages db v [] = Inr []"
| "scan_messages db v (m # ms) =
     (if role m \<noteq> Some (u ''user'') then scan_messages db v ms
      else case scan_text db v (Some (text_to_scan m)) of
             Inl e \<Rightarrow> Inl e
           | Inr detections \<Rightarrow>
               (case scan_messages db v ms of
                  Inl e \<Rightarrow> Inl e
                | Inr rest \<Rightarrow> Inr (detections @ rest)))"

definition types_found :: "env \<Rightarrow> detection list \<Rightarrow> ustr" where
  "types_found ev ds = join (u '', '') (set_iter ev (map (\<lambda>d. fst (snd d)) ds))"

definition file_line :: "env \<Rightarrow> ustr \<times> detection list \<Rightarrow> ustr" where
  "file_line ev fd = u ''  - **'' @ fst fd @ u ''**: '' @ types_found ev (snd fd)"

definition error_parts ::
  "env \<Rightarrow> detection list \<Rightarrow> (ustr \<times> detection list) list \<Rightarrow> ustr list" where
  "error_parts ev message_detections file_detections =
     (if message_detections \<noteq> []
      then [u ''Your message text contains sensitive information ('' @
            types_found ev message_detections @ u '').'']
      else []) @
     (if file_detections \<noteq> []
      then [u ''Uploaded files contain sensitive information:'' @ [10] @
            join [10] (map (file_line ev) file_detections)]
      else [])"

definition block_message ::
  "env \<Rightarrow> detection list \<Rightarrow> (ustr \<times> detection list) list \<Rightarrow> ustr" where
  "block_message ev message_detections file_detections =
     u ''**DLP Filter Blocked This Message**'' @ [10, 10] @
     join [10, 10] (error_parts ev message_detections file_detections) @
     [10, 10] @ u ''For security and compliance, this message has been '' @
     u ''blocked from being sent to the AI service.'' @ [10, 10] @
     u ''Please remove the sensitive data and try again.''"

fun redact_item :: "ucd \<Rightarrow> valves \<Rightarrow> item \<Rightarrow> error + item" where
  "redact_item db v (TextItem t) =
     (case t of
        None \<Rightarrow> Inl KeyError
      | Some x \<Rightarrow> (case redact_text db v x of Inl e \<Rightarrow> Inl e | Inr x' \<Rightarrow> Inr (TextItem (Some x'))))"
| "redact_item db v (OtherItem x) = Inr (OtherItem x)"

text \<open>A loop body run over a list, stopping at the first exception.\<close>

fun try_map :: "('a \<Rightarrow> error + 'b) \<Rightarrow> 'a list \<Rightarrow> error + 'b list" where
  "try_map f [] = Inr []"
| "try_map f (x # xs) =
     (case f x of
        Inl e \<Rightarrow> Inl e
      | Inr y \<Rightarrow> (case try_map f xs of Inl e \<Rightarrow> Inl e | Inr ys \<Rightarrow> Inr (y # ys)))"

definition redact_message :: "ucd \<Rightarrow> valves \<Rightarrow> message \<Rightarrow> error + message" where
  "redact_message db v m =
     (if role m \<noteq> Some (u ''user'') then Inr m
      else case content m of
             CList items \<Rightarrow>
               (case try_map (redact_item db v) items of
                  Inl e \<Rightarrow> Inl e
                | Inr items' \<Rightarrow> Inr (m\<lparr>content := CList items'\<rparr>))
           | CStr s \<Rightarrow>
               (case redact_text db v s of Inl e \<Rightarrow> Inl e | Inr s' \<Rightarrow> Inr (m\<lparr>content := CStr s'\<rparr>))
           | COther s \<Rightarrow>
               (case redact_text db v s of Inl e \<Rightarrow> Inl e | Inr s' \<Rightarrow> Inr (m\<lparr>content := CStr s'\<rparr>)))"

text \<open>\<open>[f for f in fs if f.get("name") not in flagged_names]\<close>\<close>

fun keep_file :: "ustr list \<Rightarrow> file_entry \<Rightarrow> error + bool" where
  "keep_file flagged_names (Ref f) =
     Inr (case f_name f of None \<Rightarrow> True | Some n \<Rightarrow> n \<notin> set flagged_names)"
| "keep_file flagged_names (NotADict _) = Inl AttributeError"

fun strip_files :: "ustr list \<Rightarrow> file_entry list \<Rightarrow> error + file_entry list" where
  "strip_files flagged_names [] = Inr []"
| "strip_files flagged_names (f # fs) =
     (case keep_file flagged_names f of
        Inl e \<Rightarrow> Inl e
      | Inr k \<Rightarrow>
          (case strip_files flagged_names fs of
             Inl e \<Rightarrow> Inl e
           | Inr fs' \<Rightarrow> Inr (if k then f # fs' else fs')))"

definition notice :: "ustr \<Rightarrow> message" where
  "notice stripped_summary = \<lparr> role = Some (u ''system''),
     content = CStr (u ''[DLP Notice] The following files were removed because they '' @
       u ''contain sensitive data: '' @ stripped_summary @ u ''. '' @
       u ''The AI will not see these files.'') \<rparr>"

text \<open>
  The branch \<open>if file_detections:\<close> of redact mode. Membership in the set
  \<open>flagged_names\<close> does not depend on the order of iteration; the joined summary does.
\<close>

definition strip_flagged :: "env \<Rightarrow> (ustr \<times> detection list) list \<Rightarrow> body \<Rightarrow> error + body" where
  "strip_flagged ev file_detections b =
     (let flagged_names = map fst file_detections;
          original_files = (case files b of None \<Rightarrow> [] | Some fs \<Rightarrow> fs)
      in case strip_files flagged_names original_files of
           Inl e \<Rightarrow> Inl e
         | Inr clean_files \<Rightarrow>
             (case (case metadata b of
                      None \<Rightarrow> Inr None
                    | Some md \<Rightarrow>
                        (case meta_files md of
                           None \<Rightarrow> Inr (Some md)
                         | Some mfs \<Rightarrow>
                             (case strip_files flagged_names mfs of
                                Inl e \<Rightarrow> Inl e
                              | Inr mfs' \<Rightarrow> Inr (Some (md\<lparr>meta_files := Some mfs'\<rparr>))))) of
                Inl e \<Rightarrow> Inl e
              | Inr md' \<Rightarrow>
                  Inr (b\<lparr>files := Some clean_files, metadata := md',
                         messages := messages b @
                           [notice (join (u '', '') (set_iter ev flagged_names))]\<rparr>)))"

definition inlet :: "ucd \<Rightarrow> env \<Rightarrow> valves \<Rightarrow> body \<Rightarrow> error + body" where
  "inlet db ev v b0 =
     (if \<not> enabled v then Inr b0
      else
        let b = b0\<lparr>messages := map (sanitize_message db) (messages b0)\<rparr>
        in case scan_messages db v (messages b) of
             Inl e \<Rightarrow> Inl e
           | Inr message_detections \<Rightarrow>
               let file_detections =
                     (if scan_file_uploads v then fst (scan_files db ev v b) else [])
               in if message_detections = [] \<and> file_detections = [] then Inr b
                  else if mode v = u ''block''
                  then Inl (Blocked (block_message ev message_detections file_detections))
                  else if mode v = u ''redact''
                  then
                    (case (if message_detections \<noteq> []
                           then try_map (redact_message db v) (messages b)
                           else Inr (messages b)) of
                       Inl e \<Rightarrow> Inl e
                     | Inr ms \<Rightarrow>
                         if file_detections \<noteq> []
                         then strip_flagged ev file_detections (b\<lparr>messages := ms\<rparr>)
                         else Inr (b\<lparr>messages := ms\<rparr>))
                  else Inr b)"

section \<open>Concrete surroundings for the examples\<close>

text \<open>
  A file store in which every file id resolves to a file below \<open>/uploads/\<close>, every file
  is eleven bytes long and reads as \<open>123-45-6789\<close>; sets iterate in order of first
  occurrence.
\<close>

definition demo_env :: env where
  "demo_env = \<lparr> glob_top = (\<lambda>file_id. [u ''/uploads/'' @ file_id]), glob_deep = (\<lambda>file_id. []),
     getsize = (\<lambda>file_path. Inr 11), decode = (\<lambda>f file_path. Inr (u ''123-45-6789'')),
     set_iter = remdups \<rparr>"

definition ssn_message :: message where
  "ssn_message = \<lparr> role = Some (u ''user''), content = CStr (u ''My SSN is 123-45-6789'') \<rparr>"

definition ssn_request :: body where
  "ssn_request = \<lparr> messages = [ssn_message], files = None, metadata = None \<rparr>"





definition bad_custom_valves :: valves where
  "bad_custom_valves = default_valves\<lparr>custom_patterns := JsonObject [(u ''bad'', BadPattern)]\<rparr>"

definition hello_request :: body where
  "hello_request = \<lparr> messages = [\<lparr> role = Some (u ''user''), content = CStr (u ''hello'') \<rparr>],
     files = None, metadata = None \<rparr>"

text \<open>A request with one attached file, named after the number it holds.\<close>

definition ssn_file_request :: body where
  "ssn_file_request = \<lparr> messages = [],
     files = Some [Ref \<lparr> f_type = u ''file'', f_id = u ''f1'', f_name = Some (u ''123-45-6789.txt'') \<rparr>],
     metadata = None \<rparr>"

definition blocked_file_message :: ustr where
  "blocked_file_message =
     u ''**DLP Filter Blocked This Message**'' @ [10, 10] @
     u ''Uploaded files contain sensitive information:'' @ [10] @
     u ''  - **123-45-6789.txt**: Social Security Number'' @ [10, 10] @
     u ''For security and compliance, this message has been blocked from being sent to the AI service.'' @
     [10, 10] @ u ''Please remove the sensitive data and try again.''"

section \<open>Notions for the statements\<close>

text \<open>The code point before the position reached after reading \<open>xs\<close> from a position
  whose predecessor is \<open>p\<close>.\<close>

definition last_cp :: "cp option \<Rightarrow> ustr \<Rightarrow> cp option" where
  "last_cp p xs = (if xs = [] then p else Some (last xs))"

text \<open>A repetition count within the upper bound of a quantifier.\<close>

definition within :: "nat option \<Rightarrow> nat \<Rightarrow> bool" where
  "within mx n = (case mx of None \<Rightarrow> True | Some b \<Rightarrow> n \<le> b)"




definition digit_count :: "ucd \<Rightarrow> ustr \<Rightarrow> nat" where
  "digit_count db s = length (filter (is_digit db) s)"




section \<open>Evaluation\<close>

lemmas re_defs = ssn_re_def ssn_digits_def ssn_sep_def ssn_labeled_re_def dash_ws_def
  credit_card_re_def credit_card_generic_re_def phi_mrn_re_def dob_labels_def date_sep3_def
  date_sep2_def phi_dob_re_def phi_dob_iso_re_def month_names_def phi_dob_text_month_re_def
  month_num_def day_num_def year_num_def phi_dob_standalone_re_def phi_dob_standalone_iso_re_def
  phi_diagnosis_re_def alnum_def key_char_def quote_def field_char_def api_key_re_def
  password_inline_re_def connection_string_re_def aws_key_re_def private_key_re_def
  bank_routing_re_def bank_account_re_def
  lit_def seqs_def ch_def digits_def star_def plus_def maybe_def

lemmas db_defs = ascii_db_def ascii_digit_def ascii_space_def ascii_word_def ascii_lower_def
  ascii_upper_def

lemmas match_defs = search_def sub_def re_sub_from.simps first_match_def boundary_def word_at_def
  next_cp_def u_def

lemmas scan_defs = scan_text_def get_active_patterns_def patterns_def mk_pattern_def
  getattr_valve_def default_valves_def py_search_def py_sub_def placeholder_def redact_text_def

lemma getattr_valve_mode [simp]: "getattr_valve (v\<lparr>mode := m\<rparr>) = getattr_valve v"
  unfolding getattr_valve_def by (rule ext) simp

lemma get_active_patterns_mode [simp]:
  "get_active_patterns (v\<lparr>mode := m\<rparr>) = get_active_patterns v"
  unfolding get_active_patterns_def getattr_valve_mode by simp

lemma scan_text_mode [simp]: "scan_text db (v\<lparr>mode := m\<rparr>) t = scan_text db v t"
  by (simp add: scan_text_def)

lemma redact_text_mode [simp]: "redact_text db (v\<lparr>mode := m\<rparr>) t = redact_text db v t"
  by (simp add: redact_text_def)

lemma scan_messages_mode [simp]:
  "scan_messages db (v\<lparr>mode := m\<rparr>) ms = scan_messages db v ms"
  by (induction ms) (simp_all cong: sum.case_cong)

lemma scan_ssn_text:
  "scan_text ascii_db default_valves (Some (u ''My SSN is 123-45-6789'')) =
     Inr [(u ''ssn'', u ''Social Security Number'', u ''critical'')]"
  by (simp add: scan_defs match_defs re_defs db_defs)

lemma sanitize_ssn_message: "sanitize_message ascii_db ssn_message = ssn_message"
  by (simp add: sanitize_message_def ssn_message_def blank_def u_def db_defs)

lemma scan_ssn_message:
  "scan_messages ascii_db default_valves [ssn_message] =
     Inr [(u ''ssn'', u ''Social Security Number'', u ''critical'')]"
proof -
  have "text_to_scan ssn_message = u ''My SSN is 123-45-6789''"
    by (simp add: text_to_scan_def ssn_message_def)
  moreover have "role ssn_message = Some (u ''user'')"
    by (simp add: ssn_message_def)
  ultimately show ?thesis
    by (simp add: scan_ssn_text)
qed

section \<open>Oversized files\<close>

text \<open>
  C5. An attached file whose size on disk exceeds \<open>max_file_size_mb\<close> megabytes is
  skipped before its text is extracted: its turn of the loop hands no path to the
  extraction and flags nothing, whatever the decoders would return, and the result of
  scanning the request's files is the same as without that file.
\<close>

theorem oversized_file_skipped:
  assumes "resolve_file_path ev (f_id f) (case f_name f of None \<Rightarrow> u ''unknown'' | Some n \<Rightarrow> n)
             = Some file_path"
      and "getsize ev file_path = Inr file_size"
      and "file_size > max_file_size_mb v * 1024 * 1024"
  shows "scan_file db ev v (Ref f) = (None, []) \<and>
         scan_files db ev v (b\<lparr>files := Some (fs1 @ Ref f # fs2)\<rparr>) =
         scan_files db ev v (b\<lparr>files := Some (fs1 @ fs2)\<rparr>)"
proof -
  have one: "scan_file db ev v (Ref f) = (None, [])"
    using assms by (simp add: scan_file_def Let_def)
  then show ?thesis
    by (simp add: scan_files_def Let_def List.map_filter_def)
qed

theorem oversized_file_skipped_witness:
  "resolve_file_path (demo_env\<lparr>getsize := (\<lambda>file_path. Inr 62914560)\<rparr>) (u ''f1'') (u ''ssn.txt'')
     = Some (u ''/uploads/f1'') \<and>
   getsize (demo_env\<lparr>getsize := (\<lambda>file_path. Inr 62914560)\<rparr>) (u ''/uploads/f1'') = Inr 62914560 \<and>
   (62914560 :: int) > max_file_size_mb default_valves * 1024 * 1024 \<and>
   scan_file ascii_db (demo_env\<lparr>getsize := (\<lambda>file_path. Inr 62914560)\<rparr>) default_valves
     (Ref \<lparr> f_type = u ''file'', f_id = u ''f1'', f_name = Some (u ''ssn.txt'') \<rparr>) = (None, []) \<and>
   scan_files ascii_db (demo_env\<lparr>getsize := (\<lambda>file_path. Inr 62914560)\<rparr>) default_valves
     (ssn_request\<lparr>files := Some ([] @ Ref \<lparr> f_type = u ''file'', f_id = u ''f1'',
        f_name = Some (u ''ssn.txt'') \<rparr> # [])\<rparr>) =
   scan_files ascii_db (demo_env\<lparr>getsize := (\<lambda>file_path. Inr 62914560)\<rparr>) default_valves
     (ssn_request\<lparr>files := Some ([] @ [])\<rparr>)"
proof -
  let ?ev = "demo_env\<lparr>getsize := (\<lambda>file_path. Inr 62914560)\<rparr>"
  let ?f = "\<lparr> f_type = u ''file'', f_id = u ''f1'', f_name = Some (u ''ssn.txt'') \<rparr>"
  have r: "resolve_file_path ?ev (f_id ?f) (case f_name ?f of None \<Rightarrow> u ''unknown'' | Some n \<Rightarrow> n)
             = Some (u ''/uploads/f1'')"
    by (simp add: resolve_file_path_def demo_env_def u_def)
  have g: "getsize ?ev (u ''/uploads/f1'') = Inr 62914560"
    by (simp add: demo_env_def)
  have m: "(62914560 :: int) > max_file_size_mb default_valves * 1024 * 1024"
    by (simp add: default_valves_def)
  from oversized_file_skipped [OF r g m, where db = ascii_db and b = ssn_request
      and ?fs1.0 = "[]" and ?fs2.0 = "[]"] r g m
  show ?thesis by simp
qed

section \<open>A mode that is neither block nor redact\<close>

text \<open>
  C8. With filtering enabled and a mode string other than \<open>block\<close> and \<open>redact\<close>, a
  request whose messages the scanner gets through is returned as it came in, up to the
  replacement of empty contents: nothing is blocked, redacted or stripped, whatever the
  scanner and the file scan found.
\<close>

theorem unrecognized_mode_passes:
  assumes "enabled v" and "mode v \<noteq> u ''block''" and "mode v \<noteq> u ''redact''"
      and "scan_messages db v (map (sanitize_message db) (messages b)) = Inr message_detections"
  shows "inlet db ev v b = Inr (b\<lparr>messages := map (sanitize_message db) (messages b)\<rparr>)"
  using assms by (simp add: inlet_def Let_def)

theorem unrecognized_mode_passes_witness:
  "enabled (default_valves\<lparr>mode := u ''audit''\<rparr>) \<and>
   mode (default_valves\<lparr>mode := u ''audit''\<rparr>) \<noteq> u ''block'' \<and>
   mode (default_valves\<lparr>mode := u ''audit''\<rparr>) \<noteq> u ''redact'' \<and>
   scan_messages ascii_db (default_valves\<lparr>mode := u ''audit''\<rparr>)
     (map (sanitize_message ascii_db) (messages ssn_request)) =
     Inr [(u ''ssn'', u ''Social Security Number'', u ''critical'')] \<and>
   inlet ascii_db demo_env (default_valves\<lparr>mode := u ''audit''\<rparr>) ssn_request = Inr ssn_request"
proof -
  let ?v = "default_valves\<lparr>mode := u ''audit''\<rparr>"
  have e: "enabled ?v" by (simp add: default_valves_def)
  have b: "mode ?v \<noteq> u ''block''" by (simp add: u_def)
  have r: "mode ?v \<noteq> u ''redact''" by (simp add: u_def)
  have m: "map (sanitize_message ascii_db) (messages ssn_request) = [ssn_message]"
    by (simp add: ssn_request_def sanitize_ssn_message)
  have s: "scan_messages ascii_db ?v (map (sanitize_message ascii_db) (messages ssn_request)) =
             Inr [(u ''ssn'', u ''Social Security Number'', u ''critical'')]"
    unfolding m scan_messages_mode by (rule scan_ssn_message)
  have same: "ssn_request\<lparr>messages := map (sanitize_message ascii_db) (messages ssn_request)\<rparr>
                = ssn_request"
    unfolding m by (simp add: ssn_request_def)
  from unrecognized_mode_passes [OF e b r s, of demo_env] e b r s
  show ?thesis unfolding same by blast
qed

section \<open>Facts about the inbound pass\<close>




lemma sanitize_message_role [simp]: "role (sanitize_message db m) = role m"
  by (cases "content m") (auto simp: sanitize_message_def)







lemma scan_files_messages [simp]: "scan_files db ev v (b\<lparr>messages := ms\<rparr>) = scan_files db ev v b"
  by (simp add: scan_files_def)





section \<open>Empty contents\<close>



section \<open>Redact mode\<close>




section \<open>The active set\<close>

lemma dict_set_subset: "set (dict_set d k v) \<subseteq> insert (k, v) (set d)"
  by (induction d k v rule: dict_set.induct) auto

lemma foldl_dict_set_subset:
  "set (foldl (\<lambda>a (n, rx). dict_set a (f n) (g n rx)) a cs)
     \<subseteq> set a \<union> (\<lambda>(n, rx). (f n, g n rx)) ` set cs"
proof (induction cs arbitrary: a)
  case Nil
  then show ?case by simp
next
  case (Cons c cs)
  obtain n rx where c: "c = (n, rx)" by (cases c)
  from Cons.IH [of "dict_set a (f n) (g n rx)"] dict_set_subset [of a "f n" "g n rx"]
  show ?case unfolding c by auto
qed

text \<open>The entries of the active set: enabled built-ins and custom detectors.\<close>

lemma active_entries:
  assumes "get_active_patterns v = Inr active" and "(k, p) \<in> set active"
  shows "(k, p) \<in> set patterns \<or>
         (\<exists>cs n rx. custom_patterns v = JsonObject cs \<and> (n, rx) \<in> set cs \<and>
            k = u ''custom_'' @ n \<and> p = custom_pattern n rx)"
proof (cases "custom_patterns v")
  case JsonError
  with assms show ?thesis by (auto simp: get_active_patterns_def)
next
  case (JsonObject cs)
  with assms(1) have "active = foldl (\<lambda>a (n, rx). dict_set a (u ''custom_'' @ n) (custom_pattern n rx))
      (filter (\<lambda>(name, p). getattr_valve v (valve p)) patterns) cs"
    by (simp add: get_active_patterns_def)
  with assms(2) foldl_dict_set_subset [of "\<lambda>n. u ''custom_'' @ n" custom_pattern
      "filter (\<lambda>(name, p). getattr_valve v (valve p)) patterns" cs]
  have "(k, p) \<in> set patterns \<or> (k, p) \<in> (\<lambda>(n, rx). (u ''custom_'' @ n, custom_pattern n rx)) ` set cs"
    by auto
  with JsonObject show ?thesis by auto
next
  case JsonOther
  with assms show ?thesis by (simp add: get_active_patterns_def)
qed

lemma active_defined:
  "custom_patterns v \<noteq> JsonOther \<Longrightarrow> \<exists>active. get_active_patterns v = Inr active"
  by (cases "custom_patterns v") (simp_all add: get_active_patterns_def)

lemma scan_loop_none:
  "\<forall>(n, p) \<in> set ps. py_search db (regex p) t = Inr False \<Longrightarrow> scan_loop db ps t = Inr []"
  by (induction ps) auto

lemma builtin_not_in_empty:
  "list_all (\<lambda>(n, p). py_search db (regex p) (Some []) = Inr False) patterns"
  by (simp add: patterns_def mk_pattern_def py_search_def match_defs re_defs)

section \<open>Empty text and None\<close>

text \<open>
  C4, as the code has it. On the empty text the scanner returns no finding and raises
  nothing, provided the custom patterns are unreadable JSON (and so ignored) or all
  compile and do not match the empty text; none of the built-in patterns matches it.
  \<open>None\<close> is no text: the parameter is a \<open>str\<close>, the callers pass strings only, and
  with one detector active \<open>re.search\<close> raises \<open>TypeError\<close> on it.
\<close>

theorem scan_empty_text:
  assumes "custom_patterns v = JsonError \<or> custom_patterns v = JsonObject cs"
      and "\<forall>(n, rx) \<in> set cs. \<exists>r. rx = Compiled r \<and> \<not> search db r []"
  shows "scan_text db v (Some []) = Inr []"
proof -
  from assms(1) obtain active where a: "get_active_patterns v = Inr active"
    using active_defined [of v] by auto
  have "py_search db (regex p) (Some []) = Inr False" if "(k, p) \<in> set active" for k p
    using active_entries [OF a that]
  proof
    assume "(k, p) \<in> set patterns"
    with builtin_not_in_empty [of db] show ?thesis by (auto simp: list_all_iff)
  next
    assume "\<exists>cs n rx. custom_patterns v = JsonObject cs \<and> (n, rx) \<in> set cs \<and>
              k = u ''custom_'' @ n \<and> p = custom_pattern n rx"
    then obtain cs' n rx where c: "custom_patterns v = JsonObject cs'" "(n, rx) \<in> set cs'"
        "p = custom_pattern n rx" by blast
    with assms(1) have "cs' = cs" by auto
    with c assms(2) obtain r where "rx = Compiled r" "\<not> search db r []" by auto
    with c(3) show ?thesis by (simp add: custom_pattern_def py_search_def)
  qed
  then have "scan_loop db active (Some []) = Inr []"
    by (intro scan_loop_none) auto
  with a show ?thesis by (simp add: scan_text_def)
qed

theorem scan_empty_text_witness:
  "scan_text ascii_db default_valves (Some []) = Inr []"
proof -
  have c: "custom_patterns default_valves = JsonError \<or> custom_patterns default_valves = JsonObject []"
    by (simp add: default_valves_def)
  have n: "\<forall>(n, rx) \<in> set []. \<exists>r. rx = Compiled r \<and> \<not> search ascii_db r []" by simp
  from scan_empty_text [OF c n] show ?thesis .
qed

theorem scan_none_counterexample:
  "scan_text ascii_db default_valves None = Inl TypeError"
  by (simp add: scan_defs u_def)

section \<open>Custom patterns that do not compile\<close>

lemma scan_loop_bad:
  assumes "list_all (\<lambda>(n, p). \<exists>r. regex p = Compiled r) ps" and "regex q = BadPattern"
  shows "scan_loop db (ps @ (k, q) # qs) (Some t) = Inl ReError"
  using assms(1)
proof (induction ps)
  case Nil
  with assms(2) show ?case by (simp add: py_search_def)
next
  case (Cons a ps)
  then show ?case by (cases a) (auto simp: py_search_def)
qed

lemma builtin_compiled: "list_all (\<lambda>(n, p). \<exists>r. regex p = Compiled r) patterns"
  by (simp add: patterns_def mk_pattern_def)

lemma dict_set_fresh: "k \<notin> fst ` set d \<Longrightarrow> dict_set d k v = d @ [(k, v)]"
  by (induction d) auto

lemma bad_custom_active:
  "get_active_patterns bad_custom_valves =
     Inr (patterns @ [(u ''custom_bad'', custom_pattern (u ''bad'') BadPattern)])"
proof -
  have f: "filter (\<lambda>(name, p). getattr_valve bad_custom_valves (valve p)) patterns = patterns"
    by (simp add: bad_custom_valves_def default_valves_def getattr_valve_def patterns_def
        mk_pattern_def u_def)
  have "u ''custom_bad'' \<notin> fst ` set patterns"
    by (simp add: patterns_def u_def)
  then have "dict_set patterns (u ''custom_bad'') (custom_pattern (u ''bad'') BadPattern) =
      patterns @ [(u ''custom_bad'', custom_pattern (u ''bad'') BadPattern)]"
    by (rule dict_set_fresh)
  then show ?thesis
    unfolding get_active_patterns_def f
    by (simp add: bad_custom_valves_def u_def)
qed

text \<open>
  C3, at the custom patterns \<open>{"bad": "("}\<close>: the JSON is read, the entry joins the
  active set, and the first scan of any text raises \<open>re.error\<close> out of \<open>_scan_text\<close>
  and out of the inbound pass, which has no handler around the scan of the messages.
\<close>

theorem bad_custom_regex_raises:
  "scan_text ascii_db bad_custom_valves (Some (u ''hello'')) = Inl ReError \<and>
   inlet ascii_db demo_env bad_custom_valves hello_request = Inl ReError"
proof -
  have s: "scan_text db bad_custom_valves (Some t) = Inl ReError" for db t
    unfolding scan_text_def bad_custom_active
    using scan_loop_bad [OF builtin_compiled, of "custom_pattern (u ''bad'') BadPattern" db
        "u ''custom_bad''" "[]" t]
    by (simp add: custom_pattern_def)
  have e: "enabled bad_custom_valves" by (simp add: bad_custom_valves_def default_valves_def)
  have "inlet ascii_db demo_env bad_custom_valves hello_request = Inl ReError"
    using e by (simp add: inlet_def hello_request_def s)
  with s show ?thesis by simp
qed

section \<open>Where findings come from, and what the rejection says\<close>

lemma sublist_in: "sublist xs ys \<Longrightarrow> sublist xs (ps @ ys @ ss)"
  by (metis sublist_appendI sublist_order.order_trans)

lemma sublist_join: "x \<in> set xs \<Longrightarrow> sublist x (join sep xs)"
proof (induction sep xs rule: join.induct)
  case (1 sep)
  then show ?case by simp
next
  case (2 sep y)
  then show ?case by simp
next
  case (3 sep y z zs)
  show ?case
  proof (cases "x = y")
    case True
    then show ?thesis by simp
  next
    case False
    with 3 have "sublist x (join sep (z # zs))" by simp
    then have "sublist x ((y @ sep) @ join sep (z # zs) @ [])" by (rule sublist_in)
    then show ?thesis by simp
  qed
qed

lemma scan_loop_sound:
  "scan_loop db ps t = Inr ds \<Longrightarrow>
     \<forall>d \<in> set ds. \<exists>(n, p) \<in> set ps. d = (n, description p, severity p)"
proof (induction ps arbitrary: ds)
  case Nil
  then show ?case by simp
next
  case (Cons a ps)
  obtain n p where a: "a = (n, p)" by (cases a)
  from Cons.prems obtain hit rest where r: "scan_loop db ps t = Inr rest"
      and ds: "ds = (if hit then (n, description p, severity p) # rest else rest)"
    unfolding a by (auto split: sum.splits)
  from Cons.IH [OF r] show ?case unfolding ds a by auto
qed

lemma scan_text_sound:
  assumes "scan_text db v t = Inr ds"
  shows "\<exists>active. get_active_patterns v = Inr active \<and>
           (\<forall>d \<in> set ds. \<exists>(n, p) \<in> set active. d = (n, description p, severity p))"
proof -
  from assms obtain active where a: "get_active_patterns v = Inr active"
      and s: "scan_loop db active t = Inr ds"
    by (auto simp: scan_text_def split: sum.splits)
  from scan_loop_sound [OF s] a show ?thesis by blast
qed

lemma scan_messages_sound:
  assumes "scan_messages db v ms = Inr ds" and "get_active_patterns v = Inr active"
  shows "\<forall>d \<in> set ds. \<exists>(n, p) \<in> set active. d = (n, description p, severity p)"
  using assms(1)
proof (induction ms arbitrary: ds)
  case Nil
  then show ?case by simp
next
  case (Cons m ms)
  show ?case
  proof (cases "role m \<noteq> Some (u ''user'')")
    case True
    with Cons show ?thesis by simp
  next
    case False
    with Cons.prems obtain d1 rest where d1: "scan_text db v (Some (text_to_scan m)) = Inr d1"
        and rest: "scan_messages db v ms = Inr rest" and ds: "ds = d1 @ rest"
      by (auto split: sum.splits)
    from scan_text_sound [OF d1] assms(2) Cons.IH [OF rest] show ?thesis unfolding ds by auto
  qed
qed

lemma scan_messages_active:
  assumes "scan_messages db v ms = Inr ds" and "ds \<noteq> []"
  shows "\<exists>active. get_active_patterns v = Inr active"
  using assms
proof (induction ms arbitrary: ds)
  case Nil
  then show ?case by simp
next
  case (Cons m ms)
  show ?case
  proof (cases "role m \<noteq> Some (u ''user'')")
    case True
    with Cons show ?thesis by simp
  next
    case False
    with Cons.prems obtain d1 where "scan_text db v (Some (text_to_scan m)) = Inr d1"
      by (auto split: sum.splits)
    from scan_text_sound [OF this] show ?thesis by blast
  qed
qed

lemma scan_file_sound:
  assumes "fst (scan_file db ev v fe) = Some (fname, ds)"
  shows "ds \<noteq> [] \<and> (\<exists>txt. scan_text db v (Some txt) = Inr ds) \<and>
         (\<exists>f. fe = Ref f \<and> fname = (case f_name f of None \<Rightarrow> u ''unknown'' | Some n \<Rightarrow> n))"
  using assms
  by (auto simp: scan_file_def Let_def split: file_entry.splits if_splits option.splits sum.splits)

lemma scan_files_sound:
  assumes "(fname, ds) \<in> set (fst (scan_files db ev v b))"
  shows "\<exists>fs fe. files b = Some fs \<and> fe \<in> set fs \<and> fst (scan_file db ev v fe) = Some (fname, ds)"
  using assms
  by (auto simp: scan_files_def Let_def List.map_filter_def split: option.splits)

lemma sublist_block_part:
  assumes "part \<in> set (error_parts ev md fd)" and "sublist x part"
  shows "sublist x (block_message ev md fd)"
proof -
  from sublist_join [OF assms(1), of "[10, 10]"] assms(2)
  have "sublist x (join [10, 10] (error_parts ev md fd))"
    by (rule sublist_order.order_trans [rotated])
  then have "sublist x ((u ''**DLP Filter Blocked This Message**'' @ [10, 10]) @
      join [10, 10] (error_parts ev md fd) @
      ([10, 10] @ u ''For security and compliance, this message has been '' @
       u ''blocked from being sent to the AI service.'' @ [10, 10] @
       u ''Please remove the sensitive data and try again.''))"
    by (rule sublist_in)
  then show ?thesis by (simp add: block_message_def)
qed

text \<open>
  C6, as the code has it. In block mode a request with a finding in its messages or
  its files is rejected: the pass raises, and nothing of the request is returned. The
  message of the exception names, for the message text, each distinct description once
  and, for each flagged file, the file's name with each distinct description once. What goes into
  it are descriptions of detectors of the active set and names of files of the request;
  the scanned text is no input of it. The matched text is in the message when a flagged
  file's name contains it, as the counterexample shows.
\<close>

theorem block_mode_rejects:
  assumes en: "enabled v" and mo: "mode v = u ''block''"
      and sm: "scan_messages db v (map (sanitize_message db) (messages b)) = Inr md"
      and fd: "fd = (if scan_file_uploads v then fst (scan_files db ev v b) else [])"
      and ne: "md \<noteq> [] \<or> fd \<noteq> []"
      and it: "\<forall>xs. set (set_iter ev xs) = set xs \<and> distinct (set_iter ev xs)"
  shows "inlet db ev v b = Inl (Blocked (block_message ev md fd)) \<and>
     (md \<noteq> [] \<longrightarrow> (\<exists>L. distinct L \<and> set L = (\<lambda>d. fst (snd d)) ` set md \<and>
        sublist (u ''Your message text contains sensitive information ('' @ join (u '', '') L @ u '').'')
          (block_message ev md fd))) \<and>
     (\<forall>(fname, ds) \<in> set fd. \<exists>L. distinct L \<and> set L = (\<lambda>d. fst (snd d)) ` set ds \<and>
        sublist (u ''  - **'' @ fname @ u ''**: '' @ join (u '', '') L) (block_message ev md fd)) \<and>
     (\<exists>active. get_active_patterns v = Inr active \<and>
        (\<forall>d \<in> set md. \<exists>(n, p) \<in> set active. d = (n, description p, severity p)) \<and>
        (\<forall>(fname, ds) \<in> set fd. ds \<noteq> [] \<and>
           (\<forall>d \<in> set ds. \<exists>(n, p) \<in> set active. d = (n, description p, severity p)) \<and>
           (\<exists>fs f. files b = Some fs \<and> Ref f \<in> set fs \<and>
              fname = (case f_name f of None \<Rightarrow> u ''unknown'' | Some n \<Rightarrow> n))))"
proof (intro conjI)
  from en mo sm fd ne show "inlet db ev v b = Inl (Blocked (block_message ev md fd))"
    by (auto simp: inlet_def Let_def)
next
  show "md \<noteq> [] \<longrightarrow> (\<exists>L. distinct L \<and> set L = (\<lambda>d. fst (snd d)) ` set md \<and>
        sublist (u ''Your message text contains sensitive information ('' @ join (u '', '') L @ u '').'')
          (block_message ev md fd))"
  proof
    assume m: "md \<noteq> []"
    let ?L = "set_iter ev (map (\<lambda>d. fst (snd d)) md)"
    let ?part = "u ''Your message text contains sensitive information ('' @ join (u '', '') ?L @ u '').''"
    from m have "?part \<in> set (error_parts ev md fd)"
      by (simp add: error_parts_def types_found_def)
    then have "sublist ?part (block_message ev md fd)"
      by (rule sublist_block_part) simp
    moreover from it have "distinct ?L" "set ?L = (\<lambda>d. fst (snd d)) ` set md" by simp_all
    ultimately show "\<exists>L. distinct L \<and> set L = (\<lambda>d. fst (snd d)) ` set md \<and>
        sublist (u ''Your message text contains sensitive information ('' @ join (u '', '') L @ u '').'')
          (block_message ev md fd)" by blast
  qed
next
  show "\<forall>(fname, ds) \<in> set fd. \<exists>L. distinct L \<and> set L = (\<lambda>d. fst (snd d)) ` set ds \<and>
        sublist (u ''  - **'' @ fname @ u ''**: '' @ join (u '', '') L) (block_message ev md fd)"
  proof (clarify)
    fix fname ds assume in_fd: "(fname, ds) \<in> set fd"
    let ?L = "set_iter ev (map (\<lambda>d. fst (snd d)) ds)"
    let ?part = "u ''Uploaded files contain sensitive information:'' @ [10] @
        join [10] (map (file_line ev) fd)"
    from in_fd have "fd \<noteq> []" by auto
    then have p: "?part \<in> set (error_parts ev md fd)" by (simp add: error_parts_def)
    from in_fd have "file_line ev (fname, ds) \<in> set (map (file_line ev) fd)" by force
    then have "sublist (file_line ev (fname, ds)) (join [10] (map (file_line ev) fd))"
      by (rule sublist_join)
    then have "sublist (file_line ev (fname, ds))
        ((u ''Uploaded files contain sensitive information:'' @ [10]) @
          join [10] (map (file_line ev) fd) @ [])"
      by (rule sublist_in)
    then have "sublist (file_line ev (fname, ds)) ?part" by simp
    with p have "sublist (file_line ev (fname, ds)) (block_message ev md fd)"
      by (rule sublist_block_part)
    then have "sublist (u ''  - **'' @ fname @ u ''**: '' @ join (u '', '') ?L) (block_message ev md fd)"
      by (simp add: file_line_def types_found_def)
    moreover from it have "distinct ?L" "set ?L = (\<lambda>d. fst (snd d)) ` set ds" by simp_all
    ultimately show "\<exists>L. distinct L \<and> set L = (\<lambda>d. fst (snd d)) ` set ds \<and>
        sublist (u ''  - **'' @ fname @ u ''**: '' @ join (u '', '') L) (block_message ev md fd)"
      by blast
  qed
next
  have files_sound: "ds \<noteq> [] \<and> (\<exists>txt. scan_text db v (Some txt) = Inr ds) \<and>
      (\<exists>fs f. files b = Some fs \<and> Ref f \<in> set fs \<and>
         fname = (case f_name f of None \<Rightarrow> u ''unknown'' | Some n \<Rightarrow> n))"
    if "(fname, ds) \<in> set fd" for fname ds
  proof -
    from that fd have "(fname, ds) \<in> set (fst (scan_files db ev v b))"
      by (auto split: if_splits)
    from scan_files_sound [OF this] obtain fs fe where fs: "files b = Some fs" "fe \<in> set fs"
        and fe: "fst (scan_file db ev v fe) = Some (fname, ds)" by blast
    from scan_file_sound [OF fe] fs show ?thesis by blast
  qed
  have "\<exists>active. get_active_patterns v = Inr active"
  proof (cases "md = []")
    case False
    with sm show ?thesis by (rule scan_messages_active)
  next
    case True
    with ne obtain fname ds where "(fname, ds) \<in> set fd" by (cases fd) auto
    from files_sound [OF this] obtain tx where "scan_text db v (Some tx) = Inr ds" by blast
    from scan_text_sound [OF this] show ?thesis by blast
  qed
  then obtain active where a: "get_active_patterns v = Inr active" ..
  have m: "\<forall>d \<in> set md. \<exists>(n, p) \<in> set active. d = (n, description p, severity p)"
    using sm a by (rule scan_messages_sound)
  have f: "\<forall>(fname, ds) \<in> set fd. ds \<noteq> [] \<and>
           (\<forall>d \<in> set ds. \<exists>(n, p) \<in> set active. d = (n, description p, severity p)) \<and>
           (\<exists>fs f. files b = Some fs \<and> Ref f \<in> set fs \<and>
              fname = (case f_name f of None \<Rightarrow> u ''unknown'' | Some n \<Rightarrow> n))"
  proof (clarify)
    fix fname ds assume "(fname, ds) \<in> set fd"
    from files_sound [OF this] obtain tx where ne: "ds \<noteq> []"
        and s: "scan_text db v (Some tx) = Inr ds"
        and n: "\<exists>fs f. files b = Some fs \<and> Ref f \<in> set fs \<and>
              fname = (case f_name f of None \<Rightarrow> u ''unknown'' | Some n \<Rightarrow> n)" by blast
    from scan_text_sound [OF s] a
    have "\<forall>d \<in> set ds. \<exists>(n, p) \<in> set active. d = (n, description p, severity p)" by auto
    with ne n show "ds \<noteq> [] \<and>
           (\<forall>d \<in> set ds. \<exists>(n, p) \<in> set active. d = (n, description p, severity p)) \<and>
           (\<exists>fs f. files b = Some fs \<and> Ref f \<in> set fs \<and>
              fname = (case f_name f of None \<Rightarrow> u ''unknown'' | Some n \<Rightarrow> n))" by blast
  qed
  from a m f show "\<exists>active. get_active_patterns v = Inr active \<and>
        (\<forall>d \<in> set md. \<exists>(n, p) \<in> set active. d = (n, description p, severity p)) \<and>
        (\<forall>(fname, ds) \<in> set fd. ds \<noteq> [] \<and>
           (\<forall>d \<in> set ds. \<exists>(n, p) \<in> set active. d = (n, description p, severity p)) \<and>
           (\<exists>fs f. files b = Some fs \<and> Ref f \<in> set fs \<and>
              fname = (case f_name f of None \<Rightarrow> u ''unknown'' | Some n \<Rightarrow> n)))" by blast
qed

lemma scan_ssn_file_text:
  "scan_text ascii_db default_valves (Some (u ''123-45-6789'')) =
     Inr [(u ''ssn'', u ''Social Security Number'', u ''critical'')]"
  by (simp add: scan_defs match_defs re_defs db_defs)

lemma scan_ssn_file:
  "scan_files ascii_db demo_env default_valves ssn_file_request =
     ([(u ''123-45-6789.txt'', [(u ''ssn'', u ''Social Security Number'', u ''critical'')])],
      [u ''/uploads/f1''])"
proof -
  have x: "extract_text_from_file ascii_db demo_env (u ''/uploads/f1'') (u ''123-45-6789.txt'')
      = Inr (u ''123-45-6789'')"
    by (simp add: extract_text_from_file_def get_file_extension_def extractors_def
        text_extensions_def demo_env_def u_def db_defs)
  have r: "resolve_file_path demo_env (u ''f1'') (u ''123-45-6789.txt'') = Some (u ''/uploads/f1'')"
    by (simp add: resolve_file_path_def demo_env_def u_def)
  have g: "getsize demo_env (u ''/uploads/f1'') = Inr 11" by (simp add: demo_env_def)
  have n: "u ''/uploads/f1'' \<noteq> []" "u ''f1'' \<noteq> []" "u ''123-45-6789'' \<noteq> []"
    by (simp_all add: u_def)
  have "scan_file ascii_db demo_env default_valves
      (Ref \<lparr> f_type = u ''file'', f_id = u ''f1'', f_name = Some (u ''123-45-6789.txt'') \<rparr>) =
      (Some (u ''123-45-6789.txt'', [(u ''ssn'', u ''Social Security Number'', u ''critical'')]),
       [u ''/uploads/f1''])"
    by (simp add: scan_file_def Let_def r g x n scan_ssn_file_text) (simp add: default_valves_def)
  then show ?thesis
    by (simp add: scan_files_def ssn_file_request_def List.map_filter_def)
qed

lemma block_ssn_file_request:
  "inlet ascii_db demo_env default_valves ssn_file_request = Inl (Blocked blocked_file_message)"
proof -
  have "block_message demo_env []
      [(u ''123-45-6789.txt'', [(u ''ssn'', u ''Social Security Number'', u ''critical'')])]
      = blocked_file_message"
    by (simp add: block_message_def error_parts_def file_line_def types_found_def
        blocked_file_message_def demo_env_def u_def)
  moreover have "messages ssn_file_request = []" by (simp add: ssn_file_request_def)
  moreover have "enabled default_valves" "scan_file_uploads default_valves"
      "mode default_valves = u ''block''"
    by (simp_all add: default_valves_def)
  ultimately show ?thesis
    by (simp add: inlet_def Let_def scan_ssn_file)
qed

lemma blocked_file_message_leak: "sublist (u ''123-45-6789'') blocked_file_message"
proof -
  have "blocked_file_message =
      (u ''**DLP Filter Blocked This Message**'' @ [10, 10] @
       u ''Uploaded files contain sensitive information:'' @ [10] @ u ''  - **'') @
      u ''123-45-6789'' @
      (u ''.txt**: Social Security Number'' @ [10, 10] @
       u ''For security and compliance, this message has been blocked from being sent to the AI service.'' @
       [10, 10] @ u ''Please remove the sensitive data and try again.'')"
    by (simp add: blocked_file_message_def u_def)
  then show ?thesis by (metis sublist_appendI)
qed

theorem blocked_message_leak_counterexample:
  "scan_text ascii_db default_valves (Some (u ''123-45-6789'')) =
     Inr [(u ''ssn'', u ''Social Security Number'', u ''critical'')] \<and>
   inlet ascii_db demo_env default_valves ssn_file_request = Inl (Blocked blocked_file_message) \<and>
   sublist (u ''123-45-6789'') blocked_file_message"
  using scan_ssn_file_text block_ssn_file_request blocked_file_message_leak by simp

theorem block_mode_rejects_witness:
  "inlet ascii_db demo_env default_valves ssn_file_request =
     Inl (Blocked (block_message demo_env []
       [(u ''123-45-6789.txt'', [(u ''ssn'', u ''Social Security Number'', u ''critical'')])])) \<and>
   get_active_patterns default_valves = Inr patterns"
proof -
  let ?fd = "[(u ''123-45-6789.txt'', [(u ''ssn'', u ''Social Security Number'', u ''critical'')])]"
  have en: "enabled default_valves" and mo: "mode default_valves = u ''block''"
    by (simp_all add: default_valves_def)
  have sm: "scan_messages ascii_db default_valves
      (map (sanitize_message ascii_db) (messages ssn_file_request)) = Inr []"
    by (simp add: ssn_file_request_def)
  have "scan_file_uploads default_valves" by (simp add: default_valves_def)
  then have fd: "?fd = (if scan_file_uploads default_valves
      then fst (scan_files ascii_db demo_env default_valves ssn_file_request) else [])"
    by (simp add: scan_ssn_file)
  have ne: "[] \<noteq> ([] :: detection list) \<or> ?fd \<noteq> []" by simp
  have it: "\<forall>xs. set (set_iter demo_env xs) = set xs \<and> distinct (set_iter demo_env xs)"
    by (simp add: demo_env_def)
  have a: "get_active_patterns default_valves = Inr patterns"
    by (simp add: scan_defs u_def)
  from block_mode_rejects [OF en mo sm fd ne it] a show ?thesis by simp
qed

section \<open>What a match is\<close>


lemma last_cp_Cons [simp]: "last_cp p (c # xs) = last_cp (Some c) xs"
  by (simp add: last_cp_def)

lemma last_cp_append [simp]: "last_cp p (xs @ ys) = last_cp (last_cp p xs) ys"
  by (simp add: last_cp_def)

lemma within_simps [simp]:
  "within None n" "within (Some b) n = (n \<le> b)" "within mx 0"
  by (simp_all add: within_def split: option.splits)













section \<open>Which detectors report\<close>








section \<open>The bare social security number\<close>

lemma digit_count_append [simp]:
  "digit_count db (xs @ ys) = digit_count db xs + digit_count db ys"
  by (simp add: digit_count_def)

lemma digit_count_Cons [simp]:
  "digit_count db (c # xs) = (if is_digit db c then Suc (digit_count db xs) else digit_count db xs)"
  by (simp add: digit_count_def)

lemma digit_count_Nil [simp]: "digit_count db [] = 0"
  by (simp add: digit_count_def)


lemma digit_count_none: "list_all (\<lambda>c. \<not> is_digit db c) xs \<Longrightarrow> digit_count db xs = 0"
  by (induction xs) auto















section \<open>One substitution step\<close>













section \<open>Redaction and what it leaves\<close>




end
